theory Spec2Isabelle
  imports Complex_Main "HOL-Library.Multiset"
begin

section \<open>Entity model (src/schema.ts, the table declarations of shared/schema.ts)\<close>

text \<open>
  Identifiers and integer columns are \<open>int\<close>; a \<open>Date\<close> is its time value, the number of
  milliseconds since the epoch, as an \<open>int\<close> (stored dates come from \<open>new Date()\<close> and are
  always valid); \<open>doublePrecision\<close> columns are \<open>real\<close> (the validating parser in front of
  the store rejects \<open>NaN\<close>). A nullable column is an \<open>option\<close> with \<open>None\<close> for \<open>null\<close>.
  Field names carry the entity as a prefix, since several entities share \<open>id\<close>,
  \<open>userId\<close> and \<open>timestamp\<close>.
\<close>

record User =
  user_id :: int
  user_username :: string
  user_password :: string
  user_email :: string
  user_profilePicture :: "string option"
  user_dailyWaterGoal :: "int option"

record WaterIntake =
  wi_id :: int
  wi_userId :: int
  wi_amount :: int
  wi_timestamp :: int

record Activity =
  act_id :: int
  act_userId :: int
  act_title :: string
  act_type :: string
  act_distance :: real
  act_duration :: int
  act_elevationGain :: "int option"
  act_weather :: "string option"
  act_temperature :: "real option"
  act_timestamp :: int
  act_isPublic :: "bool option"

record Route =
  route_id :: int
  route_activityId :: int
  route_coordinates :: string

record Post =
  post_id :: int
  post_userId :: int
  post_activityId :: "int option"
  post_content :: string
  post_imagePath :: "string option"
  post_timestamp :: int

record Like =
  like_id :: int
  like_userId :: int
  like_postId :: int

record Comment =
  comment_id :: int
  comment_userId :: int
  comment_postId :: int
  comment_content :: string
  comment_timestamp :: int

text \<open>
  The insert types pick the columns a caller provides. An optional, nullable field is an
  \<open>option\<close> whose \<open>None\<close> stands for both \<open>undefined\<close> and \<open>null\<close>: the store reads such a
  field only through \<open>||\<close> and \<open>??\<close>, which treat the two alike, and always overwrites it.
\<close>

record InsertUser =
  iu_username :: string
  iu_password :: string
  iu_email :: string
  iu_profilePicture :: "string option"
  iu_dailyWaterGoal :: "int option"

record InsertWaterIntake =
  iwi_userId :: int
  iwi_amount :: int

record InsertActivity =
  ia_userId :: int
  ia_title :: string
  ia_type :: string
  ia_distance :: real
  ia_duration :: int
  ia_elevationGain :: "int option"
  ia_weather :: "string option"
  ia_temperature :: "real option"
  ia_isPublic :: "bool option"

record InsertRoute =
  ir_activityId :: int
  ir_coordinates :: string

record InsertPost =
  ip_userId :: int
  ip_activityId :: "int option"
  ip_content :: string
  ip_imagePath :: "string option"

record InsertLike =
  il_userId :: int
  il_postId :: int

record InsertComment =
  ic_userId :: int
  ic_postId :: int
  ic_content :: string

text \<open>
  \<open>Partial<User>\<close>: every key of \<open>User\<close> may be absent (\<open>None\<close>) or present with a value.
\<close>

record PartialUser =
  pu_id :: "int option"
  pu_username :: "string option"
  pu_password :: "string option"
  pu_email :: "string option"
  pu_profilePicture :: "string option option"
  pu_dailyWaterGoal :: "int option option"

section \<open>JavaScript primitives used by the store\<close>

text \<open>
  \<open>x || d\<close> yields \<open>d\<close> when \<open>x\<close> is falsy: \<open>undefined\<close>, \<open>null\<close>, the number \<open>0\<close> or the empty
  string. \<open>x ?? d\<close> yields \<open>d\<close> only when \<open>x\<close> is \<open>undefined\<close> or \<open>null\<close>.
\<close>

definition truthy_number :: "'a::zero \<Rightarrow> bool" where
  "truthy_number n = (n \<noteq> 0)"

definition truthy_string :: "string \<Rightarrow> bool" where
  "truthy_string s = (s \<noteq> [])"

definition number_or_null :: "('a::zero) option \<Rightarrow> 'a option" where
  "number_or_null x = (case x of None \<Rightarrow> None | Some n \<Rightarrow> if truthy_number n then Some n else None)"

definition string_or_null :: "string option \<Rightarrow> string option" where
  "string_or_null x = (case x of None \<Rightarrow> None | Some s \<Rightarrow> if truthy_string s then Some s else None)"

definition number_or :: "int option \<Rightarrow> int \<Rightarrow> int" where
  "number_or x d = (case x of None \<Rightarrow> d | Some n \<Rightarrow> if truthy_number n then n else d)"

definition nullish_or :: "'a option \<Rightarrow> 'a \<Rightarrow> 'a" where
  "nullish_or x d = (case x of None \<Rightarrow> d | Some v \<Rightarrow> v)"

text \<open>
  A \<open>Map\<close> iterates in insertion order: \<open>set\<close> on a present key replaces the value in
  place, on a new key it appends; \<open>delete\<close> drops the entry.
\<close>

type_synonym 'v Map = "(int \<times> 'v) list"

primrec Map_set :: "int \<Rightarrow> 'v \<Rightarrow> 'v Map \<Rightarrow> 'v Map" where
  "Map_set k v [] = [(k, v)]"
| "Map_set k v (e # es) = (if fst e = k then (k, v) # es else e # Map_set k v es)"

definition Map_get :: "'v Map \<Rightarrow> int \<Rightarrow> 'v option" where
  "Map_get m k = map_of m k"

definition Map_delete :: "int \<Rightarrow> 'v Map \<Rightarrow> 'v Map" where
  "Map_delete k m = filter (\<lambda>e. fst e \<noteq> k) m"

definition Map_values :: "'v Map \<Rightarrow> 'v list" where
  "Map_values m = map snd m"

text \<open>
  \<open>Array.prototype.sort\<close> is stable. With the comparator \<open>(a, b) => b.t - a.t\<close> it orders
  by descending \<open>t\<close>, with \<open>(a, b) => a.t - b.t\<close> by ascending \<open>t\<close>.
\<close>

definition sort_desc :: "('a \<Rightarrow> int) \<Rightarrow> 'a list \<Rightarrow> 'a list" where
  "sort_desc t xs = sort_key (\<lambda>x. - t x) xs"

definition sort_asc :: "('a \<Rightarrow> int) \<Rightarrow> 'a list \<Rightarrow> 'a list" where
  "sort_asc t xs = sort_key t xs"

text \<open>
  \<open>Array.prototype.slice(start, stop)\<close> on integer arguments: a negative index counts from
  the end, both are clamped to the array, and an empty range gives the empty array.
\<close>

definition Array_slice :: "'a list \<Rightarrow> int \<Rightarrow> int \<Rightarrow> 'a list" where
  "Array_slice xs start stop =
     (let len = int (length xs);
          k = (if start < 0 then max (len + start) 0 else min start len);
          final = (if stop < 0 then max (len + stop) 0 else min stop len)
      in take (nat (final - k)) (drop (nat k) xs))"

text \<open>
  \<open>Date.prototype.setHours(h, m, s, ms)\<close>, as ECMAScript defines it: the time value is
  moved to local time (\<open>LocalTime\<close>), its day is kept and its time within the day
  replaced (\<open>MakeDate\<close>, \<open>MakeTime\<close>), and the result is moved back (\<open>UTC\<close>). Both moves
  use the host's time zone, ECMAScript's \<open>LocalTZA(t, isUTC)\<close>: the offset of local time
  from UTC in milliseconds, at the instant \<open>t\<close> when \<open>isUTC\<close> is true and for the local
  time \<open>t\<close> when it is false. The offset changes with the instant (daylight saving), and
  the time zone rules belong to the host, not to the store: they are the parameter \<open>tza\<close>.
\<close>

type_synonym LocalTZA = "int \<Rightarrow> bool \<Rightarrow> int"








section \<open>The in-memory store (class MemStorage of server/storage.ts, in src/schema.ts)\<close>

record MemStorage =
  users :: "User Map"
  waterIntakes :: "WaterIntake Map"
  activities :: "Activity Map"
  routes :: "Route Map"
  posts :: "Post Map"
  likes :: "Like Map"
  comments :: "Comment Map"
  userIdCounter :: int
  waterIntakeIdCounter :: int
  activityIdCounter :: int
  routeIdCounter :: int
  postIdCounter :: int
  likeIdCounter :: int
  commentIdCounter :: int

text \<open>
  Every operation takes the store and returns its result together with the store after
  the call. Operations that read \<open>new Date()\<close> take the current time \<open>now\<close>.
\<close>

definition getUser :: "MemStorage \<Rightarrow> int \<Rightarrow> User option" where
  "getUser s i = Map_get (users s) i"

definition getUserByUsername :: "MemStorage \<Rightarrow> string \<Rightarrow> User option" where
  "getUserByUsername s name = find (\<lambda>u. user_username u = name) (Map_values (users s))"

definition createUser :: "MemStorage \<Rightarrow> InsertUser \<Rightarrow> User \<times> MemStorage" where
  "createUser s insertUser =
     (let i = userIdCounter s;
          user = \<lparr> user_id = i,
                   user_username = iu_username insertUser,
                   user_password = iu_password insertUser,
                   user_email = iu_email insertUser,
                   user_profilePicture = string_or_null (iu_profilePicture insertUser),
                   user_dailyWaterGoal = Some (number_or (iu_dailyWaterGoal insertUser) 2000) \<rparr>
      in (user, s\<lparr> userIdCounter := i + 1, users := Map_set i user (users s) \<rparr>))"

definition spread_User :: "User \<Rightarrow> PartialUser \<Rightarrow> User" where
  "spread_User user data =
     \<lparr> user_id = (case pu_id data of None \<Rightarrow> user_id user | Some v \<Rightarrow> v),
       user_username = (case pu_username data of None \<Rightarrow> user_username user | Some v \<Rightarrow> v),
       user_password = (case pu_password data of None \<Rightarrow> user_password user | Some v \<Rightarrow> v),
       user_email = (case pu_email data of None \<Rightarrow> user_email user | Some v \<Rightarrow> v),
       user_profilePicture =
         (case pu_profilePicture data of None \<Rightarrow> user_profilePicture user | Some v \<Rightarrow> v),
       user_dailyWaterGoal =
         (case pu_dailyWaterGoal data of None \<Rightarrow> user_dailyWaterGoal user | Some v \<Rightarrow> v) \<rparr>"

definition updateUser :: "MemStorage \<Rightarrow> int \<Rightarrow> PartialUser \<Rightarrow> User option \<times> MemStorage" where
  "updateUser s i data =
     (case getUser s i of
        None \<Rightarrow> (None, s)
      | Some user \<Rightarrow>
          (let updatedUser = spread_User user data
           in (Some updatedUser, s\<lparr> users := Map_set i updatedUser (users s) \<rparr>)))"

definition addWaterIntake :: "MemStorage \<Rightarrow> int \<Rightarrow> InsertWaterIntake \<Rightarrow> WaterIntake \<times> MemStorage" where
  "addWaterIntake s now intake =
     (let i = waterIntakeIdCounter s;
          waterIntake = \<lparr> wi_id = i, wi_userId = iwi_userId intake,
                          wi_amount = iwi_amount intake, wi_timestamp = now \<rparr>
      in (waterIntake,
          s\<lparr> waterIntakeIdCounter := i + 1,
             waterIntakes := Map_set i waterIntake (waterIntakes s) \<rparr>))"

definition getWaterIntakeByUserId :: "MemStorage \<Rightarrow> int \<Rightarrow> WaterIntake list" where
  "getWaterIntakeByUserId s userId =
     sort_desc wi_timestamp
       (filter (\<lambda>intake. wi_userId intake = userId) (Map_values (waterIntakes s)))"


definition createActivity :: "MemStorage \<Rightarrow> int \<Rightarrow> InsertActivity \<Rightarrow> Activity \<times> MemStorage" where
  "createActivity s now activity =
     (let i = activityIdCounter s;
          newActivity = \<lparr> act_id = i,
                          act_userId = ia_userId activity,
                          act_title = ia_title activity,
                          act_type = ia_type activity,
                          act_distance = ia_distance activity,
                          act_duration = ia_duration activity,
                          act_elevationGain = number_or_null (ia_elevationGain activity),
                          act_weather = string_or_null (ia_weather activity),
                          act_temperature = number_or_null (ia_temperature activity),
                          act_timestamp = now,
                          act_isPublic = Some (nullish_or (ia_isPublic activity) True) \<rparr>
      in (newActivity,
          s\<lparr> activityIdCounter := i + 1,
             activities := Map_set i newActivity (activities s) \<rparr>))"

definition getActivityById :: "MemStorage \<Rightarrow> int \<Rightarrow> Activity option" where
  "getActivityById s i = Map_get (activities s) i"

definition getActivitiesByUserId :: "MemStorage \<Rightarrow> int \<Rightarrow> Activity list" where
  "getActivitiesByUserId s userId =
     sort_desc act_timestamp
       (filter (\<lambda>activity. act_userId activity = userId) (Map_values (activities s)))"

definition getRecentActivities :: "MemStorage \<Rightarrow> int \<Rightarrow> Activity list" where
  "getRecentActivities s limit =
     Array_slice
       (sort_desc act_timestamp
          (filter (\<lambda>activity. act_isPublic activity = Some True) (Map_values (activities s))))
       0 limit"

definition getPublicActivitiesNearby :: "MemStorage \<Rightarrow> real \<Rightarrow> real \<Rightarrow> real \<Rightarrow> Activity list" where
  "getPublicActivitiesNearby s lat lng radiusKm = getRecentActivities s 10"

definition saveRoute :: "MemStorage \<Rightarrow> InsertRoute \<Rightarrow> Route \<times> MemStorage" where
  "saveRoute s route =
     (let i = routeIdCounter s;
          newRoute = \<lparr> route_id = i, route_activityId = ir_activityId route,
                       route_coordinates = ir_coordinates route \<rparr>
      in (newRoute, s\<lparr> routeIdCounter := i + 1, routes := Map_set i newRoute (routes s) \<rparr>))"

definition getRouteByActivityId :: "MemStorage \<Rightarrow> int \<Rightarrow> Route option" where
  "getRouteByActivityId s activityId =
     find (\<lambda>route. route_activityId route = activityId) (Map_values (routes s))"

definition createPost :: "MemStorage \<Rightarrow> int \<Rightarrow> InsertPost \<Rightarrow> Post \<times> MemStorage" where
  "createPost s now post =
     (let i = postIdCounter s;
          newPost = \<lparr> post_id = i,
                      post_userId = ip_userId post,
                      post_activityId = number_or_null (ip_activityId post),
                      post_content = ip_content post,
                      post_imagePath = string_or_null (ip_imagePath post),
                      post_timestamp = now \<rparr>
      in (newPost, s\<lparr> postIdCounter := i + 1, posts := Map_set i newPost (posts s) \<rparr>))"

definition getPosts :: "MemStorage \<Rightarrow> int \<Rightarrow> int \<Rightarrow> Post list" where
  "getPosts s limit offset =
     Array_slice (sort_desc post_timestamp (Map_values (posts s))) offset (offset + limit)"

definition getPostsByUserId :: "MemStorage \<Rightarrow> int \<Rightarrow> Post list" where
  "getPostsByUserId s userId =
     sort_desc post_timestamp
       (filter (\<lambda>post. post_userId post = userId) (Map_values (posts s)))"

definition addLike :: "MemStorage \<Rightarrow> InsertLike \<Rightarrow> Like \<times> MemStorage" where
  "addLike s like =
     (case find (\<lambda>l. like_userId l = il_userId like \<and> like_postId l = il_postId like)
                (Map_values (likes s)) of
        Some existingLike \<Rightarrow> (existingLike, s)
      | None \<Rightarrow>
          (let i = likeIdCounter s;
               newLike = \<lparr> like_id = i, like_userId = il_userId like,
                           like_postId = il_postId like \<rparr>
           in (newLike, s\<lparr> likeIdCounter := i + 1, likes := Map_set i newLike (likes s) \<rparr>)))"

definition removeLike :: "MemStorage \<Rightarrow> int \<Rightarrow> int \<Rightarrow> MemStorage" where
  "removeLike s userId postId =
     (case find (\<lambda>like. like_userId like = userId \<and> like_postId like = postId)
                (Map_values (likes s)) of
        Some likeToRemove \<Rightarrow> s\<lparr> likes := Map_delete (like_id likeToRemove) (likes s) \<rparr>
      | None \<Rightarrow> s)"

definition getLikesByPostId :: "MemStorage \<Rightarrow> int \<Rightarrow> Like list" where
  "getLikesByPostId s postId =
     filter (\<lambda>like. like_postId like = postId) (Map_values (likes s))"

definition addComment :: "MemStorage \<Rightarrow> int \<Rightarrow> InsertComment \<Rightarrow> Comment \<times> MemStorage" where
  "addComment s now comment =
     (let i = commentIdCounter s;
          newComment = \<lparr> comment_id = i, comment_userId = ic_userId comment,
                         comment_postId = ic_postId comment,
                         comment_content = ic_content comment, comment_timestamp = now \<rparr>
      in (newComment,
          s\<lparr> commentIdCounter := i + 1, comments := Map_set i newComment (comments s) \<rparr>))"

definition getCommentsByPostId :: "MemStorage \<Rightarrow> int \<Rightarrow> Comment list" where
  "getCommentsByPostId s postId =
     sort_asc comment_timestamp
       (filter (\<lambda>comment. comment_postId comment = postId) (Map_values (comments s)))"

text \<open>The constructor: empty maps, every counter at 1, then the development test user.\<close>

definition MemStorage_empty :: MemStorage where
  "MemStorage_empty =
     \<lparr> users = [], waterIntakes = [], activities = [], routes = [], posts = [],
       likes = [], comments = [],
       userIdCounter = 1, waterIntakeIdCounter = 1, activityIdCounter = 1,
       routeIdCounter = 1, postIdCounter = 1, likeIdCounter = 1, commentIdCounter = 1 \<rparr>"

definition MemStorage_new :: MemStorage where
  "MemStorage_new =
     snd (createUser MemStorage_empty
            \<lparr> iu_username = ''testuser'', iu_password = ''password'',
              iu_email = ''test@example.com'', iu_profilePicture = Some [],
              iu_dailyWaterGoal = Some 2000 \<rparr>)"

text \<open>
  A sequential client of the contract issues a list of mutating calls; the reachable
  states of the store are the states \<open>run ops\<close>.
\<close>

datatype call =
    CreateUser InsertUser
  | UpdateUser int PartialUser
  | AddWaterIntake int InsertWaterIntake
  | CreateActivity int InsertActivity
  | SaveRoute InsertRoute
  | CreatePost int InsertPost
  | AddLike InsertLike
  | RemoveLike int int
  | AddComment int InsertComment

fun step :: "MemStorage \<Rightarrow> call \<Rightarrow> MemStorage" where
  "step s (CreateUser u) = snd (createUser s u)"
| "step s (UpdateUser i d) = snd (updateUser s i d)"
| "step s (AddWaterIntake now w) = snd (addWaterIntake s now w)"
| "step s (CreateActivity now a) = snd (createActivity s now a)"
| "step s (SaveRoute r) = snd (saveRoute s r)"
| "step s (CreatePost now p) = snd (createPost s now p)"
| "step s (AddLike l) = snd (addLike s l)"
| "step s (RemoveLike u p) = removeLike s u p"
| "step s (AddComment now c) = snd (addComment s now c)"

definition run :: "call list \<Rightarrow> MemStorage" where
  "run ops = foldl step MemStorage_new ops"

section \<open>Auxiliary notions for the properties\<close>

text \<open>
  The invariant of the Like collection: every entry is stored under its own identifier,
  identifiers are below the counter, and no two entries share a (userId, postId) pair.
\<close>

definition likes_ok :: "MemStorage \<Rightarrow> bool" where
  "likes_ok s \<longleftrightarrow>
     (\<forall>e \<in> set (likes s). like_id (snd e) = fst e \<and> fst e < likeIdCounter s) \<and>
     distinct (map fst (likes s)) \<and>
     distinct (map (\<lambda>l. (like_userId l, like_postId l)) (Map_values (likes s)))"

text \<open>
  The spec side of the date-window property, in the spec's words. The calendar day of an
  instant in local server time is the number of whole days between the epoch and the
  local time at that instant. A wall-clock time of a calendar day, given in milliseconds
  after local midnight, denotes the instant the server's zone assigns to it.
\<close>

definition localDay :: "LocalTZA \<Rightarrow> int \<Rightarrow> int" where
  "localDay tza t = (t + tza t True) div 86400000"

definition wallClockInstant :: "LocalTZA \<Rightarrow> int \<Rightarrow> int \<Rightarrow> int" where
  "wallClockInstant tza day timeOfDay =
     (day * 86400000 + timeOfDay) - tza (day * 86400000 + timeOfDay) False"

text \<open>
  The identifiers a client sees issued: a call that creates a record issues the
  identifier of the record it returns. \<open>addLike\<close> creates a record only when it finds no
  Like of the pair; \<open>updateUser\<close> and \<open>removeLike\<close> create nothing.
\<close>

datatype entity = EUser | EWaterIntake | EActivity | ERoute | EPost | ELike | EComment

fun counter :: "entity \<Rightarrow> MemStorage \<Rightarrow> int" where
  "counter EUser s = userIdCounter s"
| "counter EWaterIntake s = waterIntakeIdCounter s"
| "counter EActivity s = activityIdCounter s"
| "counter ERoute s = routeIdCounter s"
| "counter EPost s = postIdCounter s"
| "counter ELike s = likeIdCounter s"
| "counter EComment s = commentIdCounter s"

fun creation_call :: "call \<Rightarrow> entity option" where
  "creation_call (CreateUser u) = Some EUser"
| "creation_call (UpdateUser i d) = None"
| "creation_call (AddWaterIntake now w) = Some EWaterIntake"
| "creation_call (CreateActivity now a) = Some EActivity"
| "creation_call (SaveRoute r) = Some ERoute"
| "creation_call (CreatePost now p) = Some EPost"
| "creation_call (AddLike l) = Some ELike"
| "creation_call (RemoveLike u p) = None"
| "creation_call (AddComment now c) = Some EComment"

fun issued :: "MemStorage \<Rightarrow> call \<Rightarrow> (entity \<times> int) option" where
  "issued s (CreateUser u) = Some (EUser, user_id (fst (createUser s u)))"
| "issued s (UpdateUser i d) = None"
| "issued s (AddWaterIntake now w) = Some (EWaterIntake, wi_id (fst (addWaterIntake s now w)))"
| "issued s (CreateActivity now a) = Some (EActivity, act_id (fst (createActivity s now a)))"
| "issued s (SaveRoute r) = Some (ERoute, route_id (fst (saveRoute s r)))"
| "issued s (CreatePost now p) = Some (EPost, post_id (fst (createPost s now p)))"
| "issued s (AddLike l) =
     (case find (\<lambda>x. like_userId x = il_userId l \<and> like_postId x = il_postId l)
                (Map_values (likes s)) of
        Some existingLike \<Rightarrow> None
      | None \<Rightarrow> Some (ELike, like_id (fst (addLike s l))))"
| "issued s (RemoveLike u p) = None"
| "issued s (AddComment now c) = Some (EComment, comment_id (fst (addComment s now c)))"

fun ids_issued :: "entity \<Rightarrow> MemStorage \<Rightarrow> call list \<Rightarrow> int list" where
  "ids_issued e s [] = []"
| "ids_issued e s (c # cs) =
     (case issued s c of
        Some (e', i) \<Rightarrow> if e' = e then [i] else []
      | None \<Rightarrow> []) @ ids_issued e (step s c) cs"

section \<open>The relational store (class DatabaseStorage of server/storage.ts, in src/schema.ts)\<close>

text \<open>
  Modelled from the spec: the state of the relational engine behind \<open>db\<close> (server/db.ts
  and the database server it connects to), which is not part of the sources. The model
  keeps the \<open>users\<close> table of shared/schema.ts, as the list of its rows, and the sequence
  behind its \<open>serial\<close> identifier.
\<close>

datatype store_error = UniqueViolation string

record Database =
  db_users :: "User list"
  db_users_id_seq :: int

text \<open>
  Modelled from the spec: \<open>db.insert(users).values(vals).returning()\<close>, run by the engine
  that is not part of the sources. shared/schema.ts declares
  \<open>username: text("username").notNull().unique()\<close>; following spec section 7, an insert
  that violates the uniqueness constraint fails with a store-level error and stores
  nothing, and any other insert appends the row under the next value of the sequence and
  returns it.
\<close>

definition db_insert_users :: "Database \<Rightarrow> InsertUser \<Rightarrow> store_error + (User \<times> Database)" where
  "db_insert_users db vals =
     (if iu_username vals \<in> set (map user_username (db_users db))
      then Inl (UniqueViolation ''users_username_unique'')
      else (let row = \<lparr> user_id = db_users_id_seq db,
                         user_username = iu_username vals,
                         user_password = iu_password vals,
                         user_email = iu_email vals,
                         user_profilePicture = iu_profilePicture vals,
                         user_dailyWaterGoal = iu_dailyWaterGoal vals \<rparr>
            in Inr (row, db\<lparr> db_users := db_users db @ [row],
                              db_users_id_seq := db_users_id_seq db + 1 \<rparr>)))"

text \<open>
  \<open>DatabaseStorage.createUser\<close> fills the optional fields the way the in-memory store
  does and hands the row to the engine; a failure of the engine is not caught.
\<close>

definition DatabaseStorage_createUser ::
  "Database \<Rightarrow> InsertUser \<Rightarrow> store_error + (User \<times> Database)" where
  "DatabaseStorage_createUser db user =
     (let userData = user\<lparr> iu_profilePicture := string_or_null (iu_profilePicture user),
                            iu_dailyWaterGoal := Some (number_or (iu_dailyWaterGoal user) 2000) \<rparr>
      in db_insert_users db userData)"

section \<open>Sample inputs\<close>

text \<open>Fifteen posts created one after the other, at the times 1 to 15.\<close>

definition fifteen_posts :: "call list" where
  "fifteen_posts =
     map (\<lambda>t. CreatePost t \<lparr>ip_userId = 1, ip_activityId = None, ip_content = ''run'',
                              ip_imagePath = None\<rparr>) [1, 2, 3, 4, 5, 6, 7, 8, 9, 10, 11, 12, 13, 14, 15]"

text \<open>Twelve public activities created one after the other, at the times 1 to 12.\<close>

definition twelve_activities :: "call list" where
  "twelve_activities =
     map (\<lambda>t. CreateActivity t \<lparr>ia_userId = 1, ia_title = ''lap'', ia_type = ''run'',
                 ia_distance = 5, ia_duration = 1800, ia_elevationGain = None,
                 ia_weather = None, ia_temperature = None, ia_isPublic = None\<rparr>)
       [1, 2, 3, 4, 5, 6, 7, 8, 9, 10, 11, 12]"



text \<open>An empty database, and a user and an activity with falsy field values.\<close>

definition Database_empty :: Database where
  "Database_empty = \<lparr> db_users = [], db_users_id_seq = 1 \<rparr>"

definition alice :: InsertUser where
  "alice = \<lparr> iu_username = ''alice'', iu_password = ''pw'', iu_email = ''alice@example.com'',
             iu_profilePicture = Some [], iu_dailyWaterGoal = Some 0 \<rparr>"

definition winter_run :: InsertActivity where
  "winter_run = \<lparr> ia_userId = 1, ia_title = ''Winter run'', ia_type = ''run'',
                  ia_distance = 5, ia_duration = 1800, ia_elevationGain = Some 0,
                  ia_weather = Some ''snow'', ia_temperature = Some 0,
                  ia_isPublic = Some False \<rparr>"

section \<open>Lemmas about the primitives and the operations\<close>

lemma Map_set_fresh: "k \<notin> fst ` set m \<Longrightarrow> Map_set k v m = m @ [(k, v)]"
  by (induction m) auto

lemma likes_ok_new: "likes_ok MemStorage_new"
  by (simp add: likes_ok_def MemStorage_new_def MemStorage_empty_def createUser_def Map_values_def Let_def)

lemma find_None_pairs:
  "find (\<lambda>l. like_userId l = u \<and> like_postId l = p) xs = None \<Longrightarrow>
   (u, p) \<notin> set (map (\<lambda>l. (like_userId l, like_postId l)) xs)"
  by (auto simp: find_None_iff)

lemma likes_ok_addLike: "likes_ok s \<Longrightarrow> likes_ok (snd (addLike s l))"
proof (cases "find (\<lambda>x. like_userId x = il_userId l \<and> like_postId x = il_postId l) (Map_values (likes s))")
  case (Some a)
  assume "likes_ok s"
  with Some show ?thesis by (simp add: addLike_def)
next
  case None
  assume ok: "likes_ok s"
  have fresh: "likeIdCounter s \<notin> fst ` set (likes s)"
    using ok by (auto simp: likes_ok_def)
  have np: "(il_userId l, il_postId l) \<notin> set (map (\<lambda>l. (like_userId l, like_postId l)) (Map_values (likes s)))"
    using find_None_pairs[OF None] .
  show ?thesis
    using ok None fresh np
    by (auto simp: addLike_def Let_def Map_set_fresh likes_ok_def Map_values_def)
qed

lemma likes_ok_removeLike: "likes_ok s \<Longrightarrow> likes_ok (removeLike s u p)"
  by (auto simp: removeLike_def likes_ok_def Map_delete_def Map_values_def distinct_map_filter
           filter_map comp_def
           split: option.splits)

lemma likes_ok_step: "likes_ok s \<Longrightarrow> likes_ok (step s c)"
proof (cases c)
  case (AddLike l) assume "likes_ok s" then show ?thesis using AddLike by (simp add: likes_ok_addLike)
next
  case (RemoveLike u p) assume "likes_ok s" then show ?thesis using RemoveLike by (simp add: likes_ok_removeLike)
qed (auto simp: likes_ok_def createUser_def updateUser_def addWaterIntake_def createActivity_def
       saveRoute_def createPost_def addComment_def Let_def split: option.splits)

lemma likes_ok_foldl: "likes_ok s \<Longrightarrow> likes_ok (foldl step s cs)"
  by (induction cs arbitrary: s) (auto simp: likes_ok_step)

lemma likes_ok_run: "likes_ok (run cs)"
  by (simp add: run_def likes_ok_foldl likes_ok_new)

lemma filter_distinct_key:
  "distinct (map f xs) \<Longrightarrow> x \<in> set xs \<Longrightarrow> filter (\<lambda>y. f y = f x) xs = [x]"
proof (induction xs)
  case Nil then show ?case by simp
next
  case (Cons a xs)
  show ?case
  proof (cases "a = x")
    case True
    have "\<forall>y \<in> set xs. f y \<noteq> f x" using Cons.prems True by (auto simp: image_iff)
    then have "filter (\<lambda>y. f y = f x) xs = []" by (simp add: filter_empty_conv)
    with True show ?thesis by simp
  next
    case False
    then have "x \<in> set xs" using Cons.prems by simp
    moreover have "f a \<noteq> f x" using Cons.prems \<open>x \<in> set xs\<close> by auto
    ultimately show ?thesis using Cons by simp
  qed
qed

lemma find_append_last:
  "find P xs = None \<Longrightarrow> P x \<Longrightarrow> find P (xs @ [x]) = Some x"
  by (induction xs) (auto split: if_splits)

lemma filter_pair_split:
  "filter (\<lambda>l. like_userId l = u) (filter (\<lambda>l. like_postId l = p) xs) =
   filter (\<lambda>y. (like_userId y, like_postId y) = (u, p)) xs"
  by (induction xs) auto

lemma addLike_existing:
  assumes ok: "likes_ok s"
    and f: "find (\<lambda>l. like_userId l = u \<and> like_postId l = p) (Map_values (likes s)) = Some a"
  shows "addLike s \<lparr>il_userId = u, il_postId = p\<rparr> = (a, s)"
    and "like_userId a = u" and "like_postId a = p"
    and "filter (\<lambda>l. like_userId l = u) (getLikesByPostId s p) = [a]"
proof -
  show "addLike s \<lparr>il_userId = u, il_postId = p\<rparr> = (a, s)"
    using f by (simp add: addLike_def)
  have a: "a \<in> set (Map_values (likes s))" "like_userId a = u \<and> like_postId a = p"
    using f by (auto simp: find_Some_iff)
  show "like_userId a = u" "like_postId a = p" using a by simp_all
  have d: "distinct (map (\<lambda>l. (like_userId l, like_postId l)) (Map_values (likes s)))"
    using ok by (simp add: likes_ok_def)
  show "filter (\<lambda>l. like_userId l = u) (getLikesByPostId s p) = [a]"
  proof -
    have "filter (\<lambda>y. (like_userId y, like_postId y) = (u, p)) (Map_values (likes s)) = [a]"
      using filter_distinct_key[OF d a(1)] a(2) by simp
    then show ?thesis
      by (simp only: getLikesByPostId_def filter_pair_split)
  qed
qed

lemma addLike_fresh:
  assumes ok: "likes_ok s"
    and f: "find (\<lambda>l. like_userId l = u \<and> like_postId l = p) (Map_values (likes s)) = None"
  shows "find (\<lambda>l. like_userId l = u \<and> like_postId l = p)
           (Map_values (likes (snd (addLike s \<lparr>il_userId = u, il_postId = p\<rparr>)))) =
         Some (fst (addLike s \<lparr>il_userId = u, il_postId = p\<rparr>))"
proof -
  have fresh: "likeIdCounter s \<notin> fst ` set (likes s)"
    using ok by (auto simp: likes_ok_def)
  show ?thesis
    using f fresh
    by (simp add: addLike_def Let_def Map_set_fresh Map_values_def find_append_last)
qed

lemma run_simps: "run [] = MemStorage_new" "run (cs @ [c]) = step (run cs) c"
  by (simp_all add: run_def)

lemma map_of_Map_set: "map_of (Map_set k v m) = (map_of m)(k \<mapsto> v)"
  by (induction m) (auto simp: fun_eq_iff)

lemma length_Map_set_present: "k \<in> fst ` set m \<Longrightarrow> length (Map_set k v m) = length m"
  by (induction m) auto

lemma nth_Map_set_other:
  "n < length m \<Longrightarrow> fst (m ! n) \<noteq> k \<Longrightarrow> Map_set k v m ! n = m ! n"
proof (induction m arbitrary: n)
  case Nil then show ?case by simp
next
  case (Cons e es)
  then show ?case by (cases n) auto
qed

lemma spread_User_email_only:
  "spread_User user \<lparr>pu_id = None, pu_username = None, pu_password = None, pu_email = Some e,
      pu_profilePicture = None, pu_dailyWaterGoal = None\<rparr> = user\<lparr>user_email := e\<rparr>"
  by (simp add: spread_User_def)

lemma likes_values_distinct:
  assumes "likes_ok s"
  shows "distinct (Map_values (likes s))"
proof -
  have "distinct (map (\<lambda>l. (like_userId l, like_postId l)) (Map_values (likes s)))"
    using assms by (simp add: likes_ok_def)
  then show ?thesis by (simp add: distinct_map)
qed

lemma Map_delete_own_id:
  assumes ok: "likes_ok s" and l: "l \<in> set (Map_values (likes s))"
  shows "Map_values (Map_delete (like_id l) (likes s)) = remove1 l (Map_values (likes s))"
proof -
  have d: "distinct (Map_values (likes s))" by (rule likes_values_distinct[OF ok])
  have keys: "\<forall>e \<in> set (likes s). like_id (snd e) = fst e"
    using ok by (simp add: likes_ok_def)
  have dk: "distinct (map fst (likes s))" using ok by (simp add: likes_ok_def)
  have "\<forall>e \<in> set (likes s). (fst e \<noteq> like_id l) = (snd e \<noteq> l)"
  proof
    fix e assume e: "e \<in> set (likes s)"
    obtain e' where e': "e' \<in> set (likes s)" "snd e' = l"
      using l by (auto simp: Map_values_def)
    show "(fst e \<noteq> like_id l) = (snd e \<noteq> l)"
    proof (cases "snd e = l")
      case True then show ?thesis using keys e by auto
    next
      case False
      have "fst e \<noteq> fst e'"
      proof
        assume "fst e = fst e'"
        moreover have "inj_on fst (set (likes s))" using dk by (simp add: distinct_map)
        ultimately have "e = e'" using e e'(1) by (auto dest: inj_onD)
        then show False using False e'(2) by simp
      qed
      moreover have "fst e' = like_id l" using keys e' by auto
      ultimately show ?thesis using False by simp
    qed
  qed
  then have "filter (\<lambda>e. fst e \<noteq> like_id l) (likes s) = filter (\<lambda>e. snd e \<noteq> l) (likes s)"
    by (auto intro: filter_cong)
  then have "Map_values (Map_delete (like_id l) (likes s)) = filter (\<lambda>x. x \<noteq> l) (Map_values (likes s))"
    by (simp add: Map_values_def Map_delete_def filter_map comp_def)
  also have "\<dots> = remove1 l (Map_values (likes s))"
    using d by (simp add: distinct_remove1_removeAll removeAll_filter_not_eq neq_commute)
  finally show ?thesis .
qed

lemma find_unique_like:
  assumes ok: "likes_ok s" and l: "l \<in> set (Map_values (likes s))"
    and m: "like_userId l = u" "like_postId l = p"
  shows "find (\<lambda>x. like_userId x = u \<and> like_postId x = p) (Map_values (likes s)) = Some l"
proof -
  obtain a where a: "find (\<lambda>x. like_userId x = u \<and> like_postId x = p) (Map_values (likes s)) = Some a"
    using l m by (cases "find (\<lambda>x. like_userId x = u \<and> like_postId x = p) (Map_values (likes s))")
      (auto simp: find_None_iff)
  then have a': "a \<in> set (Map_values (likes s))" "like_userId a = u" "like_postId a = p"
    by (auto simp: find_Some_iff)
  have "distinct (map (\<lambda>l. (like_userId l, like_postId l)) (Map_values (likes s)))"
    using ok by (simp add: likes_ok_def)
  then have "inj_on (\<lambda>l. (like_userId l, like_postId l)) (set (Map_values (likes s)))"
    by (simp add: distinct_map)
  then have "a = l" using a' l m by (auto dest: inj_onD)
  with a show ?thesis by simp
qed

lemma div_eq_iff_window:
  fixes x q m :: int
  assumes "0 < m"
  shows "(q * m \<le> x \<and> x \<le> q * m + (m - 1)) \<longleftrightarrow> x div m = q"
proof
  assume a: "q * m \<le> x \<and> x \<le> q * m + (m - 1)"
  have "0 \<le> x - q * m" "x - q * m < m" using a by auto
  then have "(x - q * m) div m = 0" by simp
  moreover have "(x - q * m + q * m) div m = q + (x - q * m) div m"
    using assms by (simp only: div_mult_self1)
  then have "(x - q * m) div m = x div m - q" by simp
  ultimately show "x div m = q" by simp
next
  assume q: "x div m = q"
  have "x = (x div m) * m + x mod m" by simp
  moreover have "0 \<le> x mod m" "x mod m < m" using assms by simp_all
  ultimately show "q * m \<le> x \<and> x \<le> q * m + (m - 1)" using q by auto
qed





lemma fixed_offset_day_regular:
  fixes c day :: int
  defines "tza \<equiv> (\<lambda>t isUTC. c)"
  defines "dayStart \<equiv> wallClockInstant tza day 0"
  defines "dayEnd \<equiv> wallClockInstant tza day 86399999"
  shows "\<forall>t t'. t \<le> t' \<longrightarrow> localDay tza t \<le> localDay tza t'"
    and "localDay tza (dayStart - 1) < day" and "localDay tza dayStart = day"
    and "localDay tza dayEnd = day" and "day < localDay tza (dayEnd + 1)"
    and "dayEnd = dayStart + 86399999"
proof -
  have m: "(0::int) < 86400000" by simp
  have ld: "\<And>t. localDay tza t = (t + c) div 86400000"
    by (simp add: localDay_def tza_def)
  have f: "dayStart = day * 86400000 - c" and l: "dayEnd = day * 86400000 + 86399999 - c"
    by (simp_all add: dayStart_def dayEnd_def wallClockInstant_def tza_def)
  show "\<forall>t t'. t \<le> t' \<longrightarrow> localDay tza t \<le> localDay tza t'"
    by (simp add: ld zdiv_mono1)
  have "(day * 86400000 - 1) div 86400000 = day - 1"
    using div_eq_iff_window[OF m, of "day - 1" "day * 86400000 - 1"]
    by (simp add: algebra_simps)
  then show "localDay tza (dayStart - 1) < day" by (simp add: ld f)
  show "localDay tza dayStart = day" by (simp add: ld f)
  have "(day * 86400000 + 86399999) div 86400000 = day"
    using div_eq_iff_window[OF m, of day "day * 86400000 + 86399999"] by simp
  then show "localDay tza dayEnd = day" by (simp add: ld l)
  have "(day * 86400000 + 86400000) div 86400000 = day + 1"
    using div_eq_iff_window[OF m, of "day + 1" "day * 86400000 + 86400000"]
    by (simp add: algebra_simps)
  then show "day < localDay tza (dayEnd + 1)" by (simp add: ld l)
  show "dayEnd = dayStart + 86399999" by (simp add: f l)
qed


lemma sort_desc_mset: "mset (sort_desc t xs) = mset xs"
  by (simp add: sort_desc_def)

lemma sort_desc_set: "set (sort_desc t xs) = set xs"
  by (simp add: sort_desc_def)

lemma sort_desc_length: "length (sort_desc t xs) = length xs"
  by (simp add: sort_desc_def)

lemma sort_desc_sorted: "sorted_wrt (\<lambda>a b. t a \<ge> t b) (sort_desc t xs)"
proof -
  have "sorted (map (\<lambda>x. - t x) (sort_key (\<lambda>x. - t x) xs))" by simp
  then show ?thesis by (simp add: sort_desc_def sorted_map)
qed

lemma Array_slice_window:
  assumes "0 \<le> offset" "0 \<le> limit"
  shows "Array_slice xs offset (offset + limit) = take (nat limit) (drop (nat offset) xs)"
proof (cases "offset \<le> int (length xs)")
  case True
  show ?thesis
  proof (cases "offset + limit \<le> int (length xs)")
    case True
    with assms \<open>offset \<le> int (length xs)\<close> show ?thesis
      by (simp add: Array_slice_def Let_def min_def)
  next
    case False
    then have "length (drop (nat offset) xs) \<le> nat limit" using assms by simp
    then have "take (nat limit) (drop (nat offset) xs) = drop (nat offset) xs" by simp
    moreover have "take (nat (int (length xs) - offset)) (drop (nat offset) xs) = drop (nat offset) xs"
      using assms by simp
    ultimately show ?thesis
      using assms False \<open>offset \<le> int (length xs)\<close>
      by (simp add: Array_slice_def Let_def min_def)
  qed
next
  case False
  then show ?thesis using assms by (simp add: Array_slice_def Let_def min_def)
qed

lemma Array_slice_prefix: "0 \<le> limit \<Longrightarrow> Array_slice xs 0 limit = take (nat limit) xs"
  using Array_slice_window[of 0 limit xs] by simp

lemma sorted_wrt_take_drop:
  assumes "sorted_wrt R xs" "a \<in> set (take n xs)" "b \<in> set (drop n xs)"
  shows "R a b"
proof -
  have "sorted_wrt R (take n xs @ drop n xs)" using assms(1) by simp
  then show ?thesis using assms(2,3) unfolding sorted_wrt_append by blast
qed

lemma issued_counter:
  "issued s c = Some (e, i) \<Longrightarrow> i = counter e s \<and> counter e (step s c) = counter e s + 1"
  by (cases c)
     (auto simp: createUser_def addWaterIntake_def createActivity_def saveRoute_def
        createPost_def addLike_def addComment_def Let_def split: option.splits)

lemma not_issued_counter:
  "(\<forall>i. issued s c \<noteq> Some (e, i)) \<Longrightarrow> counter e (step s c) = counter e s"
  by (cases c; cases e)
     (auto simp: createUser_def updateUser_def addWaterIntake_def createActivity_def
        saveRoute_def createPost_def addLike_def removeLike_def addComment_def Let_def
        split: option.splits)

lemma issued_creation_call: "issued s c = Some (e, i) \<Longrightarrow> creation_call c = Some e"
  by (cases c) (auto split: option.splits)

lemma issued_unless_like:
  "creation_call c = Some e \<Longrightarrow> e \<noteq> ELike \<Longrightarrow> \<exists>i. issued s c = Some (e, i)"
  by (cases c) auto

lemma ids_issued_from_counter:
  "ids_issued e s cs = map (\<lambda>k. counter e s + int k) [0..<length (ids_issued e s cs)]"
proof (induction cs arbitrary: s)
  case Nil
  show ?case by simp
next
  case (Cons c cs)
  let ?rest = "ids_issued e (step s c) cs"
  have IH: "?rest = map (\<lambda>k. counter e (step s c) + int k) [0..<length ?rest]"
    by (rule Cons.IH)
  show ?case
  proof (cases "\<exists>i. issued s c = Some (e, i)")
    case True
    then obtain i where i: "issued s c = Some (e, i)" by blast
    have c: "i = counter e s" "counter e (step s c) = counter e s + 1"
      using issued_counter[OF i] by simp_all
    have "ids_issued e s (c # cs) = counter e s # ?rest" using i c by simp
    moreover have "map (\<lambda>k. counter e s + int k) [0..<Suc (length ?rest)] =
                   counter e s # map (\<lambda>k. counter e s + 1 + int k) [0..<length ?rest]"
      by (simp add: upt_conv_Cons map_Suc_upt[symmetric] del: upt_Suc) 
    ultimately show ?thesis using IH c by simp
  next
    case False
    then have n: "\<forall>i. issued s c \<noteq> Some (e, i)" by simp
    have "ids_issued e s (c # cs) = ?rest"
      using n by (auto split: option.splits)
    then show ?thesis using IH not_issued_counter[OF n] by simp
  qed
qed

lemma map_upt_upto: "map (\<lambda>k. a + int k) [0..<n] = [a .. a + int n - 1]"
proof (induction n)
  case 0
  show ?case by simp
next
  case (Suc n)
  have "[a .. a + int (Suc n) - 1] = [a .. a + int n - 1] @ [a + int n]"
    using upto_rec2[of a "a + int n"] by simp
  then show ?case using Suc by simp
qed

lemma length_ids_issued_le:
  "length (ids_issued e s cs) \<le> length (filter (\<lambda>c. creation_call c = Some e) cs)"
proof (induction cs arbitrary: s)
  case Nil show ?case by simp
next
  case (Cons c cs)
  show ?case
  proof (cases "issued s c")
    case None
    then show ?thesis using Cons[of "step s c"] by (simp add: le_SucI)
  next
    case (Some a)
    obtain e' i where a: "a = (e', i)" by (cases a)
    show ?thesis
      using Some a Cons[of "step s c"] issued_creation_call[of s c e' i]
      by (auto simp: le_SucI)
  qed
qed

lemma length_ids_issued_eq:
  "e \<noteq> ELike \<Longrightarrow>
   length (ids_issued e s cs) = length (filter (\<lambda>c. creation_call c = Some e) cs)"
proof (induction cs arbitrary: s)
  case Nil show ?case by simp
next
  case (Cons c cs)
  show ?case
  proof (cases "creation_call c = Some e")
    case True
    then obtain i where "issued s c = Some (e, i)"
      using issued_unless_like Cons.prems by blast
    then show ?thesis using True Cons by simp
  next
    case False
    then have "\<forall>i. issued s c \<noteq> Some (e, i)" using issued_creation_call by blast
    then have "ids_issued e s (c # cs) = ids_issued e (step s c) cs"
      by (auto split: option.splits)
    then show ?thesis using False Cons by simp
  qed
qed

lemma counter_new: "counter e MemStorage_new = (if e = EUser then 2 else 1)"
  by (cases e) (simp_all add: MemStorage_new_def MemStorage_empty_def createUser_def Let_def)

lemma createUser_result:
  "fst (createUser s u) =
     \<lparr> user_id = userIdCounter s, user_username = iu_username u, user_password = iu_password u,
       user_email = iu_email u, user_profilePicture = string_or_null (iu_profilePicture u),
       user_dailyWaterGoal = Some (number_or (iu_dailyWaterGoal u) 2000) \<rparr>"
  "users (snd (createUser s u)) = Map_set (userIdCounter s) (fst (createUser s u)) (users s)"
  "userIdCounter (snd (createUser s u)) = userIdCounter s + 1"
  by (simp_all add: createUser_def Let_def)

lemma createUser_persisted:
  "getUser (snd (createUser s u)) (user_id (fst (createUser s u))) = Some (fst (createUser s u))"
  by (simp add: createUser_def Let_def getUser_def Map_get_def map_of_Map_set)

lemma DatabaseStorage_createUser_taken:
  "iu_username u \<in> set (map user_username (db_users db)) \<Longrightarrow>
   DatabaseStorage_createUser db u = Inl (UniqueViolation ''users_username_unique'')"
  by (simp add: DatabaseStorage_createUser_def db_insert_users_def Let_def)

lemma DatabaseStorage_createUser_free:
  "iu_username u \<notin> set (map user_username (db_users db)) \<Longrightarrow>
   DatabaseStorage_createUser db u =
     Inr (\<lparr> user_id = db_users_id_seq db, user_username = iu_username u,
            user_password = iu_password u, user_email = iu_email u,
            user_profilePicture = string_or_null (iu_profilePicture u),
            user_dailyWaterGoal = Some (number_or (iu_dailyWaterGoal u) 2000) \<rparr>,
          db\<lparr> db_users := db_users db @
                 [\<lparr> user_id = db_users_id_seq db, user_username = iu_username u,
                    user_password = iu_password u, user_email = iu_email u,
                    user_profilePicture = string_or_null (iu_profilePicture u),
                    user_dailyWaterGoal = Some (number_or (iu_dailyWaterGoal u) 2000) \<rparr>],
              db_users_id_seq := db_users_id_seq db + 1 \<rparr>)"
  by (simp add: DatabaseStorage_createUser_def db_insert_users_def Let_def)

lemma createActivity_fields:
  "act_id (fst (createActivity s now a)) = activityIdCounter s"
  "act_timestamp (fst (createActivity s now a)) = now"
  "act_userId (fst (createActivity s now a)) = ia_userId a"
  "act_title (fst (createActivity s now a)) = ia_title a"
  "act_type (fst (createActivity s now a)) = ia_type a"
  "act_distance (fst (createActivity s now a)) = ia_distance a"
  "act_duration (fst (createActivity s now a)) = ia_duration a"
  "act_isPublic (fst (createActivity s now a)) =
     (case ia_isPublic a of None \<Rightarrow> Some True | Some b \<Rightarrow> Some b)"
  "act_elevationGain (fst (createActivity s now a)) =
     (if ia_elevationGain a = Some 0 then None else ia_elevationGain a)"
  "act_weather (fst (createActivity s now a)) =
     (if ia_weather a = Some [] then None else ia_weather a)"
  "act_temperature (fst (createActivity s now a)) =
     (if ia_temperature a = Some 0 then None else ia_temperature a)"
  "getActivityById (snd (createActivity s now a)) (activityIdCounter s) =
     Some (fst (createActivity s now a))"
  by (auto simp: createActivity_def Let_def nullish_or_def number_or_null_def
        string_or_null_def truthy_number_def truthy_string_def getActivityById_def
        Map_get_def map_of_Map_set split: option.splits)

section \<open>Like idempotence\<close>

text \<open>
  C1. In every state reachable by sequential contract calls, calling \<open>addLike\<close> twice with
  the same (userId, postId) returns the same Like both times, the second call leaves the
  store as the first left it, afterwards \<open>getLikesByPostId\<close> holds exactly one Like of
  that user for that post, and the reachable state holds at most one Like per pair.
\<close>

theorem addLike_idempotent:
  "let like = \<lparr>il_userId = u, il_postId = p\<rparr>;
       r1 = addLike (run cs) like;
       r2 = addLike (snd r1) like
   in fst r2 = fst r1 \<and> snd r2 = snd r1 \<and>
      like_userId (fst r1) = u \<and> like_postId (fst r1) = p \<and>
      filter (\<lambda>l. like_userId l = u) (getLikesByPostId (snd r2) p) = [fst r1] \<and>
      distinct (map (\<lambda>l. (like_userId l, like_postId l)) (Map_values (likes (run cs))))"
proof -
  define like where "like = \<lparr>il_userId = u, il_postId = p\<rparr>"
  define r1 where "r1 = addLike (run cs) like"
  define r2 where "r2 = addLike (snd r1) like"
  have ok: "likes_ok (run cs)" by (rule likes_ok_run)
  have ok1: "likes_ok (snd r1)" unfolding r1_def by (rule likes_ok_addLike[OF ok])
  have found: "find (\<lambda>l. like_userId l = u \<and> like_postId l = p) (Map_values (likes (snd r1))) = Some (fst r1)"
  proof (cases "find (\<lambda>l. like_userId l = u \<and> like_postId l = p) (Map_values (likes (run cs)))")
    case None
    show ?thesis unfolding r1_def like_def by (rule addLike_fresh[OF ok None])
  next
    case (Some a)
    show ?thesis using addLike_existing(1)[OF ok Some] Some by (simp add: r1_def like_def)
  qed
  have "r2 = (fst r1, snd r1)"
    unfolding r2_def like_def by (rule addLike_existing(1)[OF ok1 found])
  moreover have "like_userId (fst r1) = u" "like_postId (fst r1) = p"
    using addLike_existing(2,3)[OF ok1 found] by simp_all
  moreover have "filter (\<lambda>l. like_userId l = u) (getLikesByPostId (snd r1) p) = [fst r1]"
    by (rule addLike_existing(4)[OF ok1 found])
  moreover have "distinct (map (\<lambda>l. (like_userId l, like_postId l)) (Map_values (likes (run cs))))"
    using ok by (simp add: likes_ok_def)
  ultimately show ?thesis
    unfolding Let_def like_def[symmetric] r1_def[symmetric] r2_def[symmetric] by simp
qed

theorem addLike_idempotent_witness:
  "fst (addLike (snd (addLike MemStorage_new \<lparr>il_userId = 1, il_postId = 7\<rparr>)) \<lparr>il_userId = 1, il_postId = 7\<rparr>)
     = \<lparr>like_id = 1, like_userId = 1, like_postId = 7\<rparr> \<and>
   getLikesByPostId (snd (addLike (snd (addLike MemStorage_new \<lparr>il_userId = 1, il_postId = 7\<rparr>)) \<lparr>il_userId = 1, il_postId = 7\<rparr>)) 7
     = [\<lparr>like_id = 1, like_userId = 1, like_postId = 7\<rparr>]"
  using addLike_idempotent [of 1 7 "[]"]
  by (simp add: run_def MemStorage_new_def MemStorage_empty_def createUser_def addLike_def
        getLikesByPostId_def Map_values_def Let_def)

section \<open>Partial update of a user\<close>

text \<open>
  C8. When \<open>id\<close> references an existing User, \<open>updateUser(id, {email})\<close> returns that
  User with only the email replaced: username, password, profilePicture and
  dailyWaterGoal (and the id) are those stored before the call. The returned record is
  the one stored under \<open>id\<close>, every other user record is unchanged, and so is the rest
  of the store.
\<close>

theorem updateUser_email_preserves_other_fields:
  assumes "getUser s i = Some user"
  shows "let r = updateUser s i \<lparr>pu_id = None, pu_username = None, pu_password = None,
                     pu_email = Some e, pu_profilePicture = None, pu_dailyWaterGoal = None\<rparr>
         in fst r = Some (user\<lparr>user_email := e\<rparr>) \<and>
            (\<forall>u'. fst r = Some u' \<longrightarrow>
               user_username u' = user_username user \<and>
               user_password u' = user_password user \<and>
               user_profilePicture u' = user_profilePicture user \<and>
               user_dailyWaterGoal u' = user_dailyWaterGoal user \<and>
               user_id u' = user_id user \<and> user_email u' = e) \<and>
            getUser (snd r) i = fst r \<and>
            (\<forall>j. j \<noteq> i \<longrightarrow> getUser (snd r) j = getUser s j) \<and>
            length (users (snd r)) = length (users s) \<and>
            (\<forall>n < length (users s). fst (users s ! n) \<noteq> i \<longrightarrow> users (snd r) ! n = users s ! n) \<and>
            (snd r)\<lparr>users := users s\<rparr> = s"
proof -
  have present: "i \<in> fst ` set (users s)"
    using assms by (auto simp: getUser_def Map_get_def dest: map_of_SomeD intro: rev_image_eqI)
  show ?thesis
    using assms present
    by (simp add: updateUser_def Let_def spread_User_email_only getUser_def Map_get_def
          map_of_Map_set length_Map_set_present nth_Map_set_other)
qed

theorem updateUser_email_preserves_other_fields_witness:
  "getUser MemStorage_new 1 =
     Some \<lparr>user_id = 1, user_username = ''testuser'', user_password = ''password'',
           user_email = ''test@example.com'', user_profilePicture = None,
           user_dailyWaterGoal = Some 2000\<rparr> \<and>
   fst (updateUser MemStorage_new 1 \<lparr>pu_id = None, pu_username = None, pu_password = None,
          pu_email = Some ''x'', pu_profilePicture = None, pu_dailyWaterGoal = None\<rparr>) =
     Some \<lparr>user_id = 1, user_username = ''testuser'', user_password = ''password'',
           user_email = ''x'', user_profilePicture = None, user_dailyWaterGoal = Some 2000\<rparr>"
proof -
  have g: "getUser MemStorage_new 1 =
     Some \<lparr>user_id = 1, user_username = ''testuser'', user_password = ''password'',
           user_email = ''test@example.com'', user_profilePicture = None,
           user_dailyWaterGoal = Some 2000\<rparr>"
    by (simp add: MemStorage_new_def MemStorage_empty_def createUser_def getUser_def Map_get_def
          Let_def string_or_null_def number_or_def truthy_number_def truthy_string_def)
  show ?thesis
    using g updateUser_email_preserves_other_fields [OF g, of "''x''"]
    by (simp add: Let_def)
qed

section \<open>Removing a Like\<close>

text \<open>
  C9. When no Like of the store matches (userId, postId), \<open>removeLike\<close> returns without
  failure and leaves the whole store unchanged. When a reachable store holds a matching
  Like, exactly that Like is removed: the remaining Likes are the former ones without
  it, in the same order, and nothing else in the store changes.
\<close>

theorem removeLike_noop_or_exact:
  "((\<forall>l \<in> set (Map_values (likes s)). \<not> (like_userId l = u \<and> like_postId l = p)) \<longrightarrow>
      removeLike s u p = s) \<and>
   (l \<in> set (Map_values (likes (run cs))) \<and> like_userId l = u \<and> like_postId l = p \<longrightarrow>
      Map_values (likes (removeLike (run cs) u p)) = remove1 l (Map_values (likes (run cs))) \<and>
      l \<notin> set (Map_values (likes (removeLike (run cs) u p))) \<and>
      (removeLike (run cs) u p)\<lparr>likes := likes (run cs)\<rparr> = run cs)"
proof (intro conjI impI)
  assume "\<forall>l \<in> set (Map_values (likes s)). \<not> (like_userId l = u \<and> like_postId l = p)"
  then have "find (\<lambda>x. like_userId x = u \<and> like_postId x = p) (Map_values (likes s)) = None"
    by (simp add: find_None_iff)
  then show "removeLike s u p = s" by (simp add: removeLike_def)
next
  assume a: "l \<in> set (Map_values (likes (run cs))) \<and> like_userId l = u \<and> like_postId l = p"
  have ok: "likes_ok (run cs)" by (rule likes_ok_run)
  have f: "find (\<lambda>x. like_userId x = u \<and> like_postId x = p) (Map_values (likes (run cs))) = Some l"
    using find_unique_like[OF ok] a by blast
  have r: "removeLike (run cs) u p = (run cs)\<lparr>likes := Map_delete (like_id l) (likes (run cs))\<rparr>"
    using f by (simp add: removeLike_def)
  show v: "Map_values (likes (removeLike (run cs) u p)) = remove1 l (Map_values (likes (run cs)))"
    using Map_delete_own_id[OF ok] a by (simp add: r)
  show "l \<notin> set (Map_values (likes (removeLike (run cs) u p)))"
    using likes_values_distinct[OF ok] by (simp add: v)
  show "(removeLike (run cs) u p)\<lparr>likes := likes (run cs)\<rparr> = run cs"
    by (simp add: r)
qed

theorem removeLike_noop_or_exact_witness:
  "removeLike MemStorage_new 1 7 = MemStorage_new \<and>
   Map_values (likes (run [AddLike \<lparr>il_userId = 1, il_postId = 7\<rparr>])) =
     [\<lparr>like_id = 1, like_userId = 1, like_postId = 7\<rparr>] \<and>
   Map_values (likes (removeLike (run [AddLike \<lparr>il_userId = 1, il_postId = 7\<rparr>]) 1 7)) = []"
  using removeLike_noop_or_exact [of MemStorage_new 1 7
          "\<lparr>like_id = 1, like_userId = 1, like_postId = 7\<rparr>" "[AddLike \<lparr>il_userId = 1, il_postId = 7\<rparr>]"]
  by (simp add: run_def MemStorage_new_def MemStorage_empty_def createUser_def addLike_def
        Map_values_def Let_def)

section \<open>Water intake of one calendar day\<close>



section \<open>Pagination of posts\<close>

text \<open>
  C4. For \<open>limit \<ge> 0\<close> and \<open>offset \<ge> 0\<close>, \<open>getPosts(limit, offset)\<close> is the window
  \<open>[offset, offset + limit)\<close> of the ranking of all stored posts, where the ranking holds
  every stored post once and is ordered newest first. A window that starts at or beyond
  the end is empty, and with 15 posts \<open>getPosts(5, 5)\<close> is exactly the 6th to 10th post
  of the ranking.
\<close>

theorem getPosts_window:
  assumes "0 \<le> limit" and "0 \<le> offset"
  shows "let ranked = getPosts s (int (length (posts s))) 0
         in mset ranked = mset (Map_values (posts s)) \<and>
            sorted_wrt (\<lambda>a b. post_timestamp a \<ge> post_timestamp b) ranked \<and>
            getPosts s limit offset = take (nat limit) (drop (nat offset) ranked) \<and>
            (int (length (posts s)) \<le> offset \<longrightarrow> getPosts s limit offset = []) \<and>
            (length (posts s) = 15 \<longrightarrow>
               getPosts s 5 5 = [ranked ! 5, ranked ! 6, ranked ! 7, ranked ! 8, ranked ! 9])"
proof -
  define sorted_posts where "sorted_posts = sort_desc post_timestamp (Map_values (posts s))"
  have len: "length sorted_posts = length (posts s)"
    by (simp add: sorted_posts_def sort_desc_length Map_values_def)
  have ranked: "getPosts s (int (length (posts s))) 0 = sorted_posts"
    using Array_slice_window[of 0 "int (length (posts s))" sorted_posts] len
    by (simp add: getPosts_def sorted_posts_def[symmetric])
  have win: "\<And>l off. 0 \<le> l \<Longrightarrow> 0 \<le> off \<Longrightarrow>
               getPosts s l off = take (nat l) (drop (nat off) sorted_posts)"
    by (simp add: getPosts_def sorted_posts_def[symmetric] Array_slice_window)
  have 1: "mset sorted_posts = mset (Map_values (posts s))"
    by (simp add: sorted_posts_def sort_desc_mset)
  have 2: "sorted_wrt (\<lambda>a b. post_timestamp a \<ge> post_timestamp b) sorted_posts"
    unfolding sorted_posts_def by (rule sort_desc_sorted)
  have 3: "getPosts s limit offset = take (nat limit) (drop (nat offset) sorted_posts)"
    using assms by (rule win)
  have 4: "int (length (posts s)) \<le> offset \<longrightarrow> getPosts s limit offset = []"
    using 3 len assms by simp
  have 5: "length (posts s) = 15 \<longrightarrow>
      getPosts s 5 5 = [sorted_posts ! 5, sorted_posts ! 6, sorted_posts ! 7, sorted_posts ! 8, sorted_posts ! 9]"
  proof
    assume "length (posts s) = 15"
    then have l: "length sorted_posts = 15" using len by simp
    have "getPosts s 5 5 = take 5 (drop 5 sorted_posts)" using win[of 5 5] by simp
    also have "\<dots> = map (\<lambda>i. sorted_posts ! (5 + i)) [0..<5]"
      using l by (auto intro!: nth_equalityI)
    also have "\<dots> = [sorted_posts ! 5, sorted_posts ! 6, sorted_posts ! 7, sorted_posts ! 8, sorted_posts ! 9]"
      by (simp add: upt_rec)
    finally show "getPosts s 5 5 = [sorted_posts ! 5, sorted_posts ! 6, sorted_posts ! 7, sorted_posts ! 8, sorted_posts ! 9]" .
  qed
  show ?thesis unfolding Let_def ranked using 1 2 3 4 5 by blast
qed

theorem getPosts_window_witness:
  "(0::int) \<le> 5 \<and> (0::int) \<le> 15 \<and>
   map post_id (getPosts (run fifteen_posts) 5 5) = [10, 9, 8, 7, 6] \<and>
   getPosts (run fifteen_posts) 5 15 = []"
  using getPosts_window [of 5 5 "run fifteen_posts"] getPosts_window [of 5 15 "run fifteen_posts"]
  by (simp add: fifteen_posts_def run_def MemStorage_new_def MemStorage_empty_def createUser_def createPost_def
        Let_def Map_values_def getPosts_def sort_desc_def Array_slice_def number_or_null_def string_or_null_def)

section \<open>The nearby-activities stub\<close>

text \<open>
  C6. \<open>getPublicActivitiesNearby(lat, lng, radiusKm)\<close> ignores its three arguments: it is
  \<open>getRecentActivities(10)\<close>, the same for any two argument triples over the same
  store. The result holds at most 10 activities, all stored and public, newest first,
  and no public activity left out is newer than one returned.
\<close>

theorem getPublicActivitiesNearby_is_recent_ten:
  "let r = getPublicActivitiesNearby s lat lng radiusKm;
       stored = Map_values (activities s)
   in r = getRecentActivities s 10 \<and>
      r = getPublicActivitiesNearby s lat' lng' radiusKm' \<and>
      length r = min 10 (length (filter (\<lambda>a. act_isPublic a = Some True) stored)) \<and>
      (\<forall>a \<in> set r. a \<in> set stored \<and> act_isPublic a = Some True) \<and>
      sorted_wrt (\<lambda>a b. act_timestamp a \<ge> act_timestamp b) r \<and>
      (\<forall>b \<in> set stored. act_isPublic b = Some True \<and> b \<notin> set r \<longrightarrow>
         (\<forall>a \<in> set r. act_timestamp b \<le> act_timestamp a))"
proof -
  define stored where "stored = Map_values (activities s)"
  define ranked where
    "ranked = sort_desc act_timestamp (filter (\<lambda>a. act_isPublic a = Some True) stored)"
  define r where "r = getPublicActivitiesNearby s lat lng radiusKm"
  have r: "r = take 10 ranked"
    by (simp add: r_def getPublicActivitiesNearby_def getRecentActivities_def ranked_def
          stored_def Array_slice_prefix)
  have 1: "r = getRecentActivities s 10" by (simp add: r_def getPublicActivitiesNearby_def)
  have 2: "r = getPublicActivitiesNearby s lat' lng' radiusKm'"
    by (simp add: r_def getPublicActivitiesNearby_def)
  have 3: "length r = min 10 (length (filter (\<lambda>a. act_isPublic a = Some True) stored))"
    by (simp add: r ranked_def sort_desc_length min.commute)
  have set_ranked: "set ranked = {a \<in> set stored. act_isPublic a = Some True}"
    by (simp add: ranked_def sort_desc_set)
  have 4: "\<forall>a \<in> set r. a \<in> set stored \<and> act_isPublic a = Some True"
    using set_ranked by (auto simp: r dest: in_set_takeD)
  have sr: "sorted_wrt (\<lambda>a b. act_timestamp a \<ge> act_timestamp b) ranked"
    unfolding ranked_def by (rule sort_desc_sorted)
  have 5: "sorted_wrt (\<lambda>a b. act_timestamp a \<ge> act_timestamp b) r"
    unfolding r using sr by (rule sorted_wrt_take)
  have 6: "\<forall>b \<in> set stored. act_isPublic b = Some True \<and> b \<notin> set r \<longrightarrow>
         (\<forall>a \<in> set r. act_timestamp b \<le> act_timestamp a)"
  proof (intro ballI impI)
    fix b a
    assume b: "b \<in> set stored" "act_isPublic b = Some True \<and> b \<notin> set r" and a: "a \<in> set r"
    have "b \<in> set ranked" using b set_ranked by simp
    then have "b \<in> set (take 10 ranked) \<union> set (drop 10 ranked)"
      by (simp only: set_append[symmetric] append_take_drop_id)
    then have "b \<in> set (drop 10 ranked)" using b r by simp
    then show "act_timestamp b \<le> act_timestamp a"
      using sorted_wrt_take_drop[OF sr, of a 10 b] a r by simp
  qed
  show ?thesis
    unfolding Let_def r_def[symmetric] stored_def[symmetric]
    using 1 2 3 4 5 6 by blast
qed

theorem getPublicActivitiesNearby_is_recent_ten_witness:
  "map act_id (getPublicActivitiesNearby (run twelve_activities) 48 2 5) =
     [12, 11, 10, 9, 8, 7, 6, 5, 4, 3] \<and>
   getPublicActivitiesNearby (run twelve_activities) 48 2 5 =
     getPublicActivitiesNearby (run twelve_activities) (-33) 151 1"
  using getPublicActivitiesNearby_is_recent_ten [of "run twelve_activities" 48 2 5 "-33" 151 1]
  by (simp add: twelve_activities_def run_def MemStorage_new_def MemStorage_empty_def createUser_def
        createActivity_def Let_def Map_values_def getPublicActivitiesNearby_def
        getRecentActivities_def sort_desc_def Array_slice_def nullish_or_def)

section \<open>Identifier issuance\<close>

text \<open>
  The constructor has already created the test user with identifier 1, so on a freshly
  constructed store the first \<open>createUser\<close> call of a client is issued 2: the identifiers
  of N user creations are not \<open>{1, ..., N}\<close>.
\<close>

theorem fresh_store_first_user_id_counterexample:
  "ids_issued EUser MemStorage_new
     [CreateUser \<lparr>iu_username = ''alice'', iu_password = ''pw'', iu_email = ''a@example.com'',
                  iu_profilePicture = None, iu_dailyWaterGoal = None\<rparr>] = [2] \<and>
   ids_issued EUser MemStorage_new
     [CreateUser \<lparr>iu_username = ''alice'', iu_password = ''pw'', iu_email = ''a@example.com'',
                  iu_profilePicture = None, iu_dailyWaterGoal = None\<rparr>] \<noteq> [1 .. 1]"
  by (simp add: MemStorage_new_def MemStorage_empty_def createUser_def Let_def)

text \<open>
  C2 (as amended). On a freshly constructed store, whatever other calls are interleaved,
  the calls that create a record of one entity type are issued consecutive identifiers in
  call order, each once: \<open>1, ..., N\<close> for WaterIntake, Activity, Route, Post, Like and
  Comment, and \<open>2, ..., N + 1\<close> for User, whose identifier 1 went to the test user of
  the constructor. N is the number of creating calls: every creation call of the type,
  except that an \<open>addLike\<close> which finds the Like present creates nothing. No identifier
  is reused after a removal: \<open>removeLike\<close> leaves the Like counter as it is.
\<close>

theorem identifiers_issued_in_order:
  "let ids = ids_issued e MemStorage_new cs;
       n = int (length ids)
   in (e \<noteq> EUser \<longrightarrow> ids = [1 .. n]) \<and>
      (e = EUser \<longrightarrow> ids = [2 .. n + 1]) \<and>
      distinct ids \<and>
      (e \<noteq> ELike \<longrightarrow> length ids = length (filter (\<lambda>c. creation_call c = Some e) cs)) \<and>
      (e = ELike \<longrightarrow> length ids \<le> length (filter (\<lambda>c. creation_call c = Some e) cs)) \<and>
      likeIdCounter (removeLike s u p) = likeIdCounter s"
proof -
  define ids where "ids = ids_issued e MemStorage_new cs"
  have eq: "ids = [counter e MemStorage_new .. counter e MemStorage_new + int (length ids) - 1]"
    unfolding ids_def using ids_issued_from_counter[of e MemStorage_new cs]
    by (simp only: map_upt_upto)
  have 1: "e \<noteq> EUser \<longrightarrow> ids = [1 .. int (length ids)]"
    using eq by (auto simp: counter_new)
  have 2: "e = EUser \<longrightarrow> ids = [2 .. int (length ids) + 1]"
  proof
    assume "e = EUser"
    then have "ids = [2 .. 2 + int (length ids) - 1]" using eq by (simp add: counter_new)
    moreover have "2 + int (length ids) - 1 = int (length ids) + 1" by simp
    ultimately show "ids = [2 .. int (length ids) + 1]" by (simp only:)
  qed
  have 3: "distinct ids" by (subst eq) simp
  have 4: "e \<noteq> ELike \<longrightarrow> length ids = length (filter (\<lambda>c. creation_call c = Some e) cs)"
    unfolding ids_def by (simp add: length_ids_issued_eq)
  have 5: "e = ELike \<longrightarrow> length ids \<le> length (filter (\<lambda>c. creation_call c = Some e) cs)"
    unfolding ids_def by (simp add: length_ids_issued_le)
  have 6: "likeIdCounter (removeLike s u p) = likeIdCounter s"
    by (simp add: removeLike_def split: option.splits)
  show ?thesis
    unfolding Let_def ids_def[symmetric] using 1 2 3 4 5 6 by blast
qed

theorem identifiers_issued_in_order_witness:
  "ids_issued ELike MemStorage_new
     [AddLike \<lparr>il_userId = 1, il_postId = 7\<rparr>, AddLike \<lparr>il_userId = 1, il_postId = 7\<rparr>,
      RemoveLike 1 7, AddLike \<lparr>il_userId = 1, il_postId = 7\<rparr>,
      AddLike \<lparr>il_userId = 1, il_postId = 8\<rparr>] = [1, 2, 3] \<and>
   ids_issued EPost MemStorage_new
     [CreatePost 10 \<lparr>ip_userId = 1, ip_activityId = None, ip_content = ''a'', ip_imagePath = None\<rparr>,
      CreatePost 20 \<lparr>ip_userId = 1, ip_activityId = None, ip_content = ''b'', ip_imagePath = None\<rparr>]
     = [1, 2] \<and>
   ids_issued EUser MemStorage_new [CreateUser alice, CreateUser alice] = [2, 3]"
  using identifiers_issued_in_order [of EUser "[CreateUser alice, CreateUser alice]" MemStorage_new 1 7]
    identifiers_issued_in_order [of ELike
     "[AddLike \<lparr>il_userId = 1, il_postId = 7\<rparr>, AddLike \<lparr>il_userId = 1, il_postId = 7\<rparr>,
      RemoveLike 1 7, AddLike \<lparr>il_userId = 1, il_postId = 7\<rparr>,
      AddLike \<lparr>il_userId = 1, il_postId = 8\<rparr>]" MemStorage_new 1 7]
    identifiers_issued_in_order [of EPost
     "[CreatePost 10 \<lparr>ip_userId = 1, ip_activityId = None, ip_content = ''a'', ip_imagePath = None\<rparr>,
      CreatePost 20 \<lparr>ip_userId = 1, ip_activityId = None, ip_content = ''b'', ip_imagePath = None\<rparr>]"
      MemStorage_new 1 7]
  by (simp add: MemStorage_new_def MemStorage_empty_def createUser_def createPost_def
        addLike_def removeLike_def Let_def Map_values_def Map_delete_def alice_def)

section \<open>Duplicate usernames\<close>

text \<open>
  C7. Two \<open>createUser\<close> calls with the same username: the in-memory store accepts both
  (it has no failure at all) and afterwards stores two distinct User records with
  distinct identifiers and that username. Against the relational store the second insert
  fails with the uniqueness violation of the \<open>users\<close> table, whether the first insert
  was accepted or had itself failed because the name was taken.
\<close>

theorem createUser_same_username_asymmetry:
  assumes "iu_username u2 = iu_username u1"
  shows "(let r1 = createUser s u1; r2 = createUser (snd r1) u2
          in user_username (fst r1) = user_username (fst r2) \<and>
             user_id (fst r1) \<noteq> user_id (fst r2) \<and>
             fst r1 \<noteq> fst r2 \<and>
             getUser (snd r2) (user_id (fst r1)) = Some (fst r1) \<and>
             getUser (snd r2) (user_id (fst r2)) = Some (fst r2)) \<and>
         (case DatabaseStorage_createUser db u1 of
            Inr (user1, db1) \<Rightarrow>
              DatabaseStorage_createUser db1 u2 = Inl (UniqueViolation ''users_username_unique'')
          | Inl e \<Rightarrow> DatabaseStorage_createUser db u2 = Inl e)"
proof -
  define r1 where "r1 = createUser s u1"
  define r2 where "r2 = createUser (snd r1) u2"
  have id1: "user_id (fst r1) = userIdCounter s"
    by (simp add: r1_def createUser_result)
  have id2: "user_id (fst r2) = userIdCounter s + 1"
    by (simp add: r1_def r2_def createUser_result)
  have names: "user_username (fst r1) = user_username (fst r2)"
    using assms by (simp add: r1_def r2_def createUser_result)
  have ne: "user_id (fst r1) \<noteq> user_id (fst r2)" using id1 id2 by simp
  then have ne': "fst r1 \<noteq> fst r2" by auto
  have g2: "getUser (snd r2) (user_id (fst r2)) = Some (fst r2)"
    unfolding r2_def by (rule createUser_persisted)
  have "getUser (snd r1) (user_id (fst r1)) = Some (fst r1)"
    unfolding r1_def by (rule createUser_persisted)
  then have g1: "getUser (snd r2) (user_id (fst r1)) = Some (fst r1)"
    using id1 id2
    by (simp add: r2_def getUser_def Map_get_def createUser_result(2,3) map_of_Map_set r1_def)
  have mem: "user_username (fst r1) = user_username (fst r2) \<and>
             user_id (fst r1) \<noteq> user_id (fst r2) \<and>
             fst r1 \<noteq> fst r2 \<and>
             getUser (snd r2) (user_id (fst r1)) = Some (fst r1) \<and>
             getUser (snd r2) (user_id (fst r2)) = Some (fst r2)"
    using names ne ne' g1 g2 by simp
  have db: "(case DatabaseStorage_createUser db u1 of
            Inr (user1, db1) \<Rightarrow>
              DatabaseStorage_createUser db1 u2 = Inl (UniqueViolation ''users_username_unique'')
          | Inl e \<Rightarrow> DatabaseStorage_createUser db u2 = Inl e)"
  proof (cases "iu_username u1 \<in> set (map user_username (db_users db))")
    case True
    then have "iu_username u2 \<in> set (map user_username (db_users db))" using assms by simp
    then show ?thesis
      using True by (simp add: DatabaseStorage_createUser_taken)
  next
    case False
    show ?thesis
      using assms by (simp add: DatabaseStorage_createUser_free[OF False]
            DatabaseStorage_createUser_taken)
  qed
  show ?thesis
    unfolding Let_def r1_def[symmetric] r2_def[symmetric] using mem db by simp
qed

theorem createUser_same_username_asymmetry_witness:
  "map (\<lambda>u. (user_id u, user_username u))
     (Map_values (users (snd (createUser (snd (createUser MemStorage_new alice)) alice)))) =
     [(1, ''testuser''), (2, ''alice''), (3, ''alice'')] \<and>
   (case DatabaseStorage_createUser Database_empty alice of
      Inr (user1, db1) \<Rightarrow>
        user_id user1 = 1 \<and>
        DatabaseStorage_createUser db1 alice = Inl (UniqueViolation ''users_username_unique'')
    | Inl e \<Rightarrow> False)"
proof -
  have h: "iu_username alice = iu_username alice" by simp
  show ?thesis
    using createUser_same_username_asymmetry [OF h, of MemStorage_new Database_empty]
    by (simp add: alice_def Database_empty_def MemStorage_new_def MemStorage_empty_def
          createUser_def DatabaseStorage_createUser_def db_insert_users_def Let_def
          Map_values_def)
qed

section \<open>Defaulting in createUser\<close>

text \<open>
  C10. \<open>createUser\<close> with \<open>dailyWaterGoal\<close> given as 0 returns and persists a User with
  \<open>dailyWaterGoal = 2000\<close>, and with \<open>profilePicture\<close> given as the empty string one with
  \<open>profilePicture = null\<close>: \<open>||\<close> replaces the falsy values that are provided as well as
  the absent ones. This holds for the in-memory store, and for the relational store,
  which accepts the insert whenever the username is free and then returns and stores the
  row with these values.
\<close>

theorem createUser_falsy_values_replaced:
  "(iu_dailyWaterGoal u = Some 0 \<longrightarrow>
      user_dailyWaterGoal (fst (createUser s u)) = Some 2000) \<and>
   (iu_profilePicture u = Some [] \<longrightarrow>
      user_profilePicture (fst (createUser s u)) = None) \<and>
   getUser (snd (createUser s u)) (user_id (fst (createUser s u))) = Some (fst (createUser s u)) \<and>
   (iu_username u \<notin> set (map user_username (db_users db)) \<longrightarrow>
      (\<exists>user db'. DatabaseStorage_createUser db u = Inr (user, db'))) \<and>
   (\<forall>user db'. DatabaseStorage_createUser db u = Inr (user, db') \<longrightarrow>
      user \<in> set (db_users db') \<and>
      (iu_dailyWaterGoal u = Some 0 \<longrightarrow> user_dailyWaterGoal user = Some 2000) \<and>
      (iu_profilePicture u = Some [] \<longrightarrow> user_profilePicture user = None))"
proof -
  have 1: "iu_dailyWaterGoal u = Some 0 \<longrightarrow>
      user_dailyWaterGoal (fst (createUser s u)) = Some 2000"
    by (simp add: createUser_result number_or_def truthy_number_def)
  have 2: "iu_profilePicture u = Some [] \<longrightarrow>
      user_profilePicture (fst (createUser s u)) = None"
    by (simp add: createUser_result string_or_null_def truthy_string_def)
  have 3: "getUser (snd (createUser s u)) (user_id (fst (createUser s u))) = Some (fst (createUser s u))"
    by (rule createUser_persisted)
  have 4: "iu_username u \<notin> set (map user_username (db_users db)) \<longrightarrow>
      (\<exists>user db'. DatabaseStorage_createUser db u = Inr (user, db'))"
    using DatabaseStorage_createUser_free[of u db] by blast
  have 5: "\<forall>user db'. DatabaseStorage_createUser db u = Inr (user, db') \<longrightarrow>
      user \<in> set (db_users db') \<and>
      (iu_dailyWaterGoal u = Some 0 \<longrightarrow> user_dailyWaterGoal user = Some 2000) \<and>
      (iu_profilePicture u = Some [] \<longrightarrow> user_profilePicture user = None)"
  proof (cases "iu_username u \<in> set (map user_username (db_users db))")
    case True
    then show ?thesis by (simp add: DatabaseStorage_createUser_taken)
  next
    case False
    show ?thesis
      by (auto simp: DatabaseStorage_createUser_free[OF False] number_or_def truthy_number_def
            string_or_null_def truthy_string_def)
  qed
  show ?thesis using 1 2 3 4 5 by blast
qed

theorem createUser_falsy_values_replaced_witness:
  "fst (createUser MemStorage_new alice) =
     \<lparr> user_id = 2, user_username = ''alice'', user_password = ''pw'',
       user_email = ''alice@example.com'', user_profilePicture = None,
       user_dailyWaterGoal = Some 2000 \<rparr> \<and>
   DatabaseStorage_createUser Database_empty alice =
     Inr (\<lparr> user_id = 1, user_username = ''alice'', user_password = ''pw'',
            user_email = ''alice@example.com'', user_profilePicture = None,
            user_dailyWaterGoal = Some 2000 \<rparr>,
          \<lparr> db_users = [\<lparr> user_id = 1, user_username = ''alice'', user_password = ''pw'',
                          user_email = ''alice@example.com'', user_profilePicture = None,
                          user_dailyWaterGoal = Some 2000 \<rparr>],
            db_users_id_seq = 2 \<rparr>)"
  using createUser_falsy_values_replaced [of alice MemStorage_new Database_empty]
  by (simp add: alice_def Database_empty_def MemStorage_new_def MemStorage_empty_def
        createUser_def DatabaseStorage_createUser_def db_insert_users_def Let_def
        number_or_def truthy_number_def string_or_null_def truthy_string_def)

section \<open>Defaulting in createActivity\<close>

text \<open>
  C5. \<open>createActivity\<close> is to keep the values a caller provides. For an activity with
  \<open>elevationGain = 0\<close>, \<open>temperature = 0\<close> and \<open>isPublic = false\<close> the store keeps
  \<open>isPublic = false\<close>, which it reads through \<open>??\<close>, but returns and stores \<open>null\<close> for
  the elevation gain and the temperature, which it reads through \<open>||\<close>.
\<close>

theorem createActivity_zero_values_stored_as_null:
  "getActivityById (snd (createActivity MemStorage_new 1700000000000 winter_run)) 1 =
     Some \<lparr> act_id = 1, act_userId = 1, act_title = ''Winter run'', act_type = ''run'',
            act_distance = 5, act_duration = 1800, act_elevationGain = None,
            act_weather = Some ''snow'', act_temperature = None,
            act_timestamp = 1700000000000, act_isPublic = Some False \<rparr> \<and>
   fst (createActivity MemStorage_new 1700000000000 winter_run) =
     \<lparr> act_id = 1, act_userId = 1, act_title = ''Winter run'', act_type = ''run'',
       act_distance = 5, act_duration = 1800, act_elevationGain = None,
       act_weather = Some ''snow'', act_temperature = None,
       act_timestamp = 1700000000000, act_isPublic = Some False \<rparr>"
  by (simp add: winter_run_def createActivity_def MemStorage_new_def MemStorage_empty_def
        createUser_def Let_def nullish_or_def number_or_null_def string_or_null_def
        truthy_number_def truthy_string_def getActivityById_def Map_get_def)

end
